theory Spec2Isabelle
  imports Main "HOL-Library.AList"
begin

section \<open>The URL shortener of \<open>src/apis.js\<close>\<close>

text \<open>
  The service keeps two JavaScript \<open>Map\<close>s, \<open>urlDatabase\<close> (shortcode to URL record) and
  \<open>expiryDatabase\<close> (shortcode to expiry \<open>Date\<close>), and three request handlers plus a
  periodic cleanup work on them. Each handler is embedded as a function from the store
  before the request to the response it sends and the store after it. Logging only prints
  and is left out.

  Conventions of the embedding:
  \<^item> a \<open>Map\<close> is an association list in insertion order; \<open>set\<close> on a present key replaces
    the value in place and on a new key appends, \<open>delete\<close> removes the key;
  \<^item> a point in time is an \<open>int\<close>, the milliseconds since the epoch; each reading of the
    clock (\<open>new Date()\<close>, \<open>Date.now()\<close>) is an argument of the handler;
  \<^item> a \<open>Date\<close> object is a \<open>jsdate\<close>: constructing one from a time value outside
    \<open>\<plusminus>8.64e15\<close> ms gives the invalid date, whose comparisons are all false and whose
    \<open>toISOString\<close> throws;
  \<^item> \<open>accessCount\<close> is a natural number (a JavaScript number is exact on the integers
    up to \<open>2^53\<close>);
  \<^item> strings are \<open>char list\<close>s; the request fields are typed: a URL and a shortcode are
    strings when present.
\<close>

subsection \<open>Maps\<close>

definition map_has :: "(string \<times> 'v) list \<Rightarrow> string \<Rightarrow> bool" where
  "map_has m k = (map_of m k \<noteq> None)"

definition map_get :: "(string \<times> 'v) list \<Rightarrow> string \<Rightarrow> 'v option" where
  "map_get m k = map_of m k"

definition map_set :: "(string \<times> 'v) list \<Rightarrow> string \<Rightarrow> 'v \<Rightarrow> (string \<times> 'v) list" where
  "map_set m k v = AList.update k v m"

definition map_delete :: "(string \<times> 'v) list \<Rightarrow> string \<Rightarrow> (string \<times> 'v) list" where
  "map_delete m k = AList.delete k m"

subsection \<open>Dates\<close>

datatype jsdate = Date int | InvalidDate

text \<open>\<open>new Date(t)\<close> for a number \<open>t\<close>: the time value is clipped to the range of dates.\<close>

definition newDate :: "int \<Rightarrow> jsdate" where
  "newDate t = (if \<bar>t\<bar> \<le> 8640000000000000 then Date t else InvalidDate)"

text \<open>\<open>new Date() > new Date(expiryTime)\<close>: both sides become numbers, the invalid date
  becomes NaN, and every comparison with NaN is false.\<close>

fun now_gt :: "int \<Rightarrow> jsdate \<Rightarrow> bool" where
  "now_gt now (Date e) = (now > e)"
| "now_gt now InvalidDate = False"

subsection \<open>The store\<close>

record urlData =
  originalUrl :: string
  createdAt :: int
  accessCount :: nat

record store =
  urlDatabase :: "(string \<times> urlData) list"
  expiryDatabase :: "(string \<times> jsdate) list"

subsection \<open>Shortcodes\<close>

definition chars :: string where
  "chars = ''ABCDEFGHIJKLMNOPQRSTUVWXYZabcdefghijklmnopqrstuvwxyz0123456789''"

text \<open>\<open>String.prototype.charAt\<close>: the empty string when the index is out of range.\<close>

definition charAt :: "string \<Rightarrow> nat \<Rightarrow> string" where
  "charAt s i = (if i < length s then [s ! i] else [])"

text \<open>
  \<open>generateShortcode\<close>. The random source is a sequence \<open>rnd\<close>: \<open>rnd k\<close> is the value of
  \<open>Math.floor(Math.random() * chars.length)\<close> at the \<open>k\<close>-th draw. The loop runs \<open>len\<close>
  times (the source's parameter \<open>length\<close>, 6 by default) and appends one \<open>charAt\<close> per
  round.
\<close>

primrec generateShortcode_loop :: "nat \<Rightarrow> (nat \<Rightarrow> nat) \<Rightarrow> nat \<Rightarrow> string \<Rightarrow> string" where
  "generateShortcode_loop 0 rnd k result = result"
| "generateShortcode_loop (Suc n) rnd k result =
     generateShortcode_loop n rnd (Suc k) (result @ charAt chars (rnd k))"

definition generateShortcode :: "nat \<Rightarrow> (nat \<Rightarrow> nat) \<Rightarrow> nat \<Rightarrow> string" where
  "generateShortcode len rnd k = generateShortcode_loop len rnd k []"

text \<open>The character class \<open>[a-zA-Z0-9]\<close> of the shortcode pattern.\<close>

definition isAlnum :: "char \<Rightarrow> bool" where
  "isAlnum c = (let n = (of_char c :: nat) in
     (97 \<le> n \<and> n \<le> 122) \<or> (65 \<le> n \<and> n \<le> 90) \<or> (48 \<le> n \<and> n \<le> 57))"

text \<open>\<open>/^[a-zA-Z0-9]+$/.test(shortcode) && shortcode.length >= 3 && shortcode.length <= 20\<close>\<close>

definition isValidShortcode :: "string \<Rightarrow> bool" where
  "isValidShortcode shortcode =
     ((shortcode \<noteq> [] \<and> list_all isAlnum shortcode)
      \<and> length shortcode \<ge> 3 \<and> length shortcode \<le> 20)"

subsection \<open>Expiry\<close>

text \<open>\<open>isExpired\<close>: a shortcode with no expiry record counts as expired (a \<open>Date\<close> object
  is never falsy, so \<open>!expiryTime\<close> holds exactly when the key is missing).\<close>

definition isExpired :: "int \<Rightarrow> store \<Rightarrow> string \<Rightarrow> bool" where
  "isExpired now st shortcode =
     (case map_get (expiryDatabase st) shortcode of
        None \<Rightarrow> True
      | Some expiryTime \<Rightarrow> now_gt now expiryTime)"

text \<open>
  \<open>cleanupExpiredUrls\<close>. The \<open>for ... of\<close> loop walks the entries of \<open>expiryDatabase\<close>; the
  only entry a round deletes is the one it is visiting, so the entries visited are those
  present when the loop starts. The function has no \<open>return\<close> statement: its value is
  \<open>undefined\<close>, written \<open>None\<close> here (\<open>Some n\<close> would be a number).
\<close>

fun cleanup_loop :: "int \<Rightarrow> (string \<times> jsdate) list \<Rightarrow> store \<Rightarrow> store" where
  "cleanup_loop now [] st = st"
| "cleanup_loop now ((shortcode, expiryTime) # rest) st =
     (if now_gt now expiryTime
      then cleanup_loop now rest
             (st\<lparr>urlDatabase := map_delete (urlDatabase st) shortcode,
                 expiryDatabase := map_delete (expiryDatabase st) shortcode\<rparr>)
      else cleanup_loop now rest st)"

definition cleanupExpiredUrls :: "int \<Rightarrow> store \<Rightarrow> nat option \<times> store" where
  "cleanupExpiredUrls now st = (None, cleanup_loop now (expiryDatabase st) st)"

subsection \<open>Requests and responses\<close>

text \<open>
  The responses the handlers send: the status code with the fields of its JSON body, or
  the redirect with its target. \<open>Created\<close> carries the short link and the time value that
  \<open>expiryTime.toISOString()\<close> prints; \<open>Stats\<close> carries the shortcode, the original URL, the
  creation time, the expiry and the access count.
\<close>

datatype response =
  Created string int
| BadRequest string
| Conflict string
| NotFound string
| Gone string
| Stats string string int jsdate nat
| Redirect string
| InternalServerError string

text \<open>The body of a create request. Its \<open>validity\<close> field is missing (the default 30
  applies), a value that \<open>Number.isInteger\<close> rejects, or an integer.\<close>

datatype validity_field = Absent | NotInteger | IntegerValue int

record request_body =
  req_url :: "string option"
  req_validity :: validity_field
  req_shortcode :: "string option"

text \<open>Truthiness of an optional string: \<open>undefined\<close> and the empty string are falsy.\<close>

fun truthy :: "string option \<Rightarrow> bool" where
  "truthy None = False"
| "truthy (Some s) = (s \<noteq> [])"

subsection \<open>Create Short URL: \<open>POST /shorturls\<close>\<close>

text \<open>
  The \<open>do ... while (urlDatabase.has(finalShortcode))\<close> loop: round \<open>n\<close> uses the draws
  \<open>6 * n, ..., 6 * n + 5\<close> of the random source. Nothing bounds the number of rounds, so
  the loop is a partial function: \<open>None\<close> when it never leaves.
\<close>

partial_function (option) generateUnique ::
  "(nat \<Rightarrow> nat) \<Rightarrow> nat \<Rightarrow> (string \<times> urlData) list \<Rightarrow> string option" where
  "generateUnique rnd k db =
     (let finalShortcode = generateShortcode 6 rnd k in
      if map_has db finalShortcode then generateUnique rnd (k + 6) db
      else Some finalShortcode)"

text \<open>
  Lines 136 to 154 of the handler, once \<open>finalShortcode\<close> is chosen. \<open>tExpiry\<close> is the
  reading \<open>Date.now()\<close> of line 137 and \<open>tCreated\<close> the reading \<open>new Date()\<close> of line 142.
  Both maps are written before the log line calls \<open>expiryTime.toISOString()\<close>, which
  throws on the invalid date; the \<open>catch\<close> block then answers 500 and the entry stays.
\<close>

definition storeEntry ::
  "string \<Rightarrow> int \<Rightarrow> int \<Rightarrow> store \<Rightarrow> string \<Rightarrow> int \<Rightarrow> string \<Rightarrow> response \<times> store" where
  "storeEntry BASE_URL tExpiry tCreated st u v finalShortcode =
     (let expiryTime = newDate (tExpiry + v * 60 * 1000);
          st' = st\<lparr>urlDatabase := map_set (urlDatabase st) finalShortcode
                       \<lparr>originalUrl = u, createdAt = tCreated, accessCount = 0\<rparr>,
                    expiryDatabase := map_set (expiryDatabase st) finalShortcode expiryTime\<rparr>;
          shortLink = BASE_URL @ ''/'' @ finalShortcode
      in case expiryTime of
           InvalidDate \<Rightarrow>
             (InternalServerError ''An error occurred while creating the short URL'', st')
         | Date e \<Rightarrow> (Created shortLink e, st'))"

text \<open>
  \<open>isValidUrl\<close>. The platform's \<open>URL\<close> constructor is the argument \<open>urlProtocol\<close>: it
  gives the \<open>protocol\<close> of the parsed URL, or \<open>None\<close> when the constructor throws.
\<close>

definition isValidUrl :: "(string \<Rightarrow> string option) \<Rightarrow> string \<Rightarrow> bool" where
  "isValidUrl urlProtocol s =
     (case urlProtocol s of
        None \<Rightarrow> False
      | Some protocol \<Rightarrow> protocol = ''http:'' \<or> protocol = ''https:'')"

text \<open>
  The handler. \<open>BASE_URL\<close> is the constant of line 6. The result is \<open>None\<close> when the
  generation loop does not end. A requested shortcode is used when it is truthy; a missing
  or empty one sends the handler to the generation loop.
\<close>

definition create ::
  "(string \<Rightarrow> string option) \<Rightarrow> string \<Rightarrow> (nat \<Rightarrow> nat) \<Rightarrow> int \<Rightarrow> int \<Rightarrow> store
     \<Rightarrow> request_body \<Rightarrow> (response \<times> store) option" where
  "create urlProtocol BASE_URL rnd tExpiry tCreated st body =
     (case req_url body of
        None \<Rightarrow> Some (BadRequest ''URL is required'', st)
      | Some u \<Rightarrow>
          if u = [] then Some (BadRequest ''URL is required'', st)
          else if \<not> isValidUrl urlProtocol u
          then Some (BadRequest ''Invalid URL format'', st)
          else
            (case (case req_validity body of Absent \<Rightarrow> IntegerValue 30 | w \<Rightarrow> w) of
               IntegerValue v \<Rightarrow>
                 if v \<le> 0
                 then Some (BadRequest
                        ''Validity must be a positive integer representing minutes'', st)
                 else
                   (case (if truthy (req_shortcode body) then req_shortcode body else None) of
                      Some shortcode \<Rightarrow>
                        if \<not> isValidShortcode shortcode
                        then Some (BadRequest
                               ''Shortcode must be alphanumeric, 3-20 characters long'', st)
                        else if map_has (urlDatabase st) shortcode
                        then Some (Conflict ''Shortcode already exists'', st)
                        else Some (storeEntry BASE_URL tExpiry tCreated st u v shortcode)
                    | None \<Rightarrow>
                        (case generateUnique rnd 0 (urlDatabase st) of
                           None \<Rightarrow> None
                         | Some finalShortcode \<Rightarrow>
                             Some (storeEntry BASE_URL tExpiry tCreated st u v finalShortcode)))
             | _ \<Rightarrow> Some (BadRequest
                        ''Validity must be a positive integer representing minutes'', st)))"

subsection \<open>Retrieve Short URL Statistics: \<open>GET /shorturls/:shortcode\<close>\<close>

text \<open>
  After the two guards both lookups find their key; were one \<open>undefined\<close>, reading a
  field of it would throw and the \<open>catch\<close> block would answer 500.
\<close>

definition getStats :: "int \<Rightarrow> store \<Rightarrow> string \<Rightarrow> response \<times> store" where
  "getStats now st shortcode =
     (if \<not> map_has (urlDatabase st) shortcode
      then (NotFound ''Shortcode not found'', st)
      else if isExpired now st shortcode
      then (Gone ''Short URL has expired'',
            st\<lparr>urlDatabase := map_delete (urlDatabase st) shortcode,
               expiryDatabase := map_delete (expiryDatabase st) shortcode\<rparr>)
      else
        (case map_get (urlDatabase st) shortcode of
           None \<Rightarrow> (InternalServerError ''An error occurred while retrieving statistics'', st)
         | Some urlData \<Rightarrow>
             (case map_get (expiryDatabase st) shortcode of
                None \<Rightarrow>
                  (InternalServerError ''An error occurred while retrieving statistics'', st)
              | Some expiryTime \<Rightarrow>
                  (Stats shortcode (originalUrl urlData) (createdAt urlData) expiryTime
                     (accessCount urlData), st))))"

subsection \<open>Redirect Short URL: \<open>GET /:shortcode\<close>\<close>

definition resolve :: "int \<Rightarrow> store \<Rightarrow> string \<Rightarrow> response \<times> store" where
  "resolve now st shortcode =
     (if shortcode = ''shorturls'' \<or> shortcode = ''health''
      then (NotFound ''Route not found'', st)
      else if \<not> map_has (urlDatabase st) shortcode
      then (NotFound ''Shortcode not found'', st)
      else if isExpired now st shortcode
      then (Gone ''Short URL has expired'',
            st\<lparr>urlDatabase := map_delete (urlDatabase st) shortcode,
               expiryDatabase := map_delete (expiryDatabase st) shortcode\<rparr>)
      else
        (case map_get (urlDatabase st) shortcode of
           None \<Rightarrow>
             (InternalServerError ''An error occurred while processing the redirect'', st)
         | Some urlData \<Rightarrow>
             (Redirect (originalUrl urlData),
              st\<lparr>urlDatabase := map_set (urlDatabase st) shortcode
                     (urlData\<lparr>accessCount := accessCount urlData + 1\<rparr>)\<rparr>)))"

subsection \<open>Notions used in the statements\<close>

text \<open>The two maps hold the same shortcodes.\<close>

definition same_codes :: "store \<Rightarrow> bool" where
  "same_codes st = (set (map fst (urlDatabase st)) = set (map fst (expiryDatabase st)))"

text \<open>The shortcodes of the expiry entries that are past their expiry at \<open>now\<close>.\<close>

definition expiredCodes :: "int \<Rightarrow> (string \<times> jsdate) list \<Rightarrow> string list" where
  "expiredCodes now es = map fst (filter (\<lambda>(shortcode, expiryTime). now_gt now expiryTime) es)"

subsection \<open>Example values\<close>

text \<open>
  The store at start-up (both maps are \<open>new Map()\<close>), a stand-in for the URL
  constructor that reads the scheme off the front of the string, and two stores with one entry each, created at
  time 0 with a validity of one minute.
\<close>

definition emptyStore :: store where
  "emptyStore = \<lparr>urlDatabase = [], expiryDatabase = []\<rparr>"

definition schemeOf :: "string \<Rightarrow> string option" where
  "schemeOf u =
     (if take 8 u = ''https://'' then Some ''https:''
      else if take 7 u = ''http://'' then Some ''http:''
      else None)"

definition store_abc :: store where
  "store_abc =
     \<lparr>urlDatabase =
        [(''abc'', \<lparr>originalUrl = ''https://example.com/a'', createdAt = 0, accessCount = 0\<rparr>)],
      expiryDatabase = [(''abc'', Date 60000)]\<rparr>"

definition store_shorturls :: store where
  "store_shorturls =
     \<lparr>urlDatabase =
        [(''shorturls'',
          \<lparr>originalUrl = ''https://example.com/s'', createdAt = 0, accessCount = 0\<rparr>)],
      expiryDatabase = [(''shorturls'', Date 60000)]\<rparr>"

section \<open>Facts about the maps\<close>

lemma map_has_set: "map_has (map_set m k v) k' = (k' = k \<or> map_has m k')"
  by (simp add: map_has_def map_set_def update_conv')

lemma map_get_set: "map_get (map_set m k v) k' = (if k' = k then Some v else map_get m k')"
  by (simp add: map_get_def map_set_def update_conv')

lemma map_has_delete: "map_has (map_delete m k) k' = (k' \<noteq> k \<and> map_has m k')"
  by (simp add: map_has_def map_delete_def delete_conv')

lemma map_get_delete: "map_get (map_delete m k) k' = (if k' = k then None else map_get m k')"
  by (simp add: map_get_def map_delete_def delete_conv')

lemma map_has_get: "map_has m k = (map_get m k \<noteq> None)"
  by (simp add: map_has_def map_get_def)

lemma keys_map_set: "fst ` set (map_set m k v) = insert k (fst ` set m)"
  by (simp add: map_set_def dom_update)

lemma keys_map_delete: "fst ` set (map_delete m k) = fst ` set m - {k}"
proof -
  have "map fst (map_delete m k) = removeAll k (map fst m)"
    by (simp add: map_delete_def delete_keys)
  then have "set (map fst (map_delete m k)) = set (map fst m) - {k}"
    by (simp only: set_removeAll)
  then show ?thesis by simp
qed

lemma filter_map_delete:
  "filter P (map_delete m k) = filter (\<lambda>p. fst p \<noteq> k \<and> P p) m"
  by (induction m) (auto simp: map_delete_def AList.delete_eq)

text \<open>The equations that evaluate the handlers on concrete stores.\<close>

lemmas eval_defs =
  create_def storeEntry_def getStats_def resolve_def cleanupExpiredUrls_def isExpired_def
  map_has_def map_get_def map_set_def map_delete_def AList.delete_eq newDate_def
  isValidShortcode_def isAlnum_def isValidUrl_def schemeOf_def emptyStore_def store_abc_def
  store_shorturls_def same_codes_def expiredCodes_def Let_def

section \<open>Generated shortcodes\<close>

lemma length_chars: "length chars = 62"
  by (simp add: chars_def)

lemma chars_alnum: "list_all isAlnum chars"
  by (simp add: chars_def isAlnum_def)

lemma charAt_chars:
  assumes "i < 62"
  shows "\<exists>c. charAt chars i = [c] \<and> c \<in> set chars"
  using assms by (simp add: charAt_def length_chars)

lemma generateShortcode_loop_props:
  assumes "\<forall>i<n. rnd (k + i) < 62"
  shows "length (generateShortcode_loop n rnd k acc) = length acc + n
       \<and> set (generateShortcode_loop n rnd k acc) \<subseteq> set acc \<union> set chars"
  using assms
proof (induction n arbitrary: k acc)
  case 0
  then show ?case by simp
next
  case (Suc n)
  from Suc.prems have r0: "rnd k < 62" by (metis add.right_neutral zero_less_Suc)
  from Suc.prems have rest: "\<forall>i<n. rnd (Suc k + i) < 62" by auto
  obtain c where c: "charAt chars (rnd k) = [c]" "c \<in> set chars"
    using charAt_chars [OF r0] by blast
  from Suc.IH [OF rest, of "acc @ [c]"] c show ?case by auto
qed

text \<open>
  \<^bold>\<open>C8.\<close> Every code that \<open>generateShortcode\<close> produces with the default length 6 has
  exactly 6 characters, all of them from the 62-character alphabet \<open>chars\<close>, whose
  characters are all alphanumeric; hence the code passes \<open>isValidShortcode\<close>. The
  hypothesis is the range of \<open>Math.floor(Math.random() * 62)\<close>: \<open>Math.random()\<close> lies in
  \<open>[0, 1)\<close>, so each of the six draws is an index below 62.
\<close>

theorem generated_code_valid:
  assumes "\<forall>i<6. rnd (k + i) < 62"
  shows "length (generateShortcode 6 rnd k) = 6
       \<and> set (generateShortcode 6 rnd k) \<subseteq> set chars
       \<and> length chars = 62 \<and> list_all isAlnum chars
       \<and> isValidShortcode (generateShortcode 6 rnd k)"
proof -
  let ?c = "generateShortcode 6 rnd k"
  have p: "length ?c = 6" "set ?c \<subseteq> set chars"
    using generateShortcode_loop_props [OF assms, of "[]"] by (simp_all add: generateShortcode_def)
  have "list_all isAlnum ?c"
    using p(2) chars_alnum by (auto simp: list_all_iff)
  moreover from p(1) have "?c \<noteq> []" by auto
  ultimately show ?thesis
    using p length_chars chars_alnum by (simp add: isValidShortcode_def)
qed

theorem generated_code_valid_witness:
  "generateShortcode 6 (\<lambda>i. 7 * i + 3) 0 = ''DKRYfm''
   \<and> length (generateShortcode 6 (\<lambda>i. 7 * i + 3) 0) = 6
   \<and> isValidShortcode (generateShortcode 6 (\<lambda>i. 7 * i + 3) 0)"
proof -
  have h: "\<forall>i<6. (\<lambda>i. 7 * i + 3) (0 + i) < (62::nat)" by auto
  have e: "generateShortcode 6 (\<lambda>i. 7 * i + 3) 0 = ''DKRYfm''"
    by (simp add: generateShortcode_def eval_nat_numeral charAt_def chars_def)
  from generated_code_valid [OF h] e show ?thesis by simp
qed

section \<open>The two maps hold the same shortcodes\<close>

lemma same_codes_delete:
  "same_codes st \<Longrightarrow>
   same_codes (st\<lparr>urlDatabase := map_delete (urlDatabase st) k,
                  expiryDatabase := map_delete (expiryDatabase st) k\<rparr>)"
  by (simp add: same_codes_def keys_map_delete)

lemma same_codes_storeEntry:
  "same_codes st \<Longrightarrow> same_codes (snd (storeEntry B t1 t2 st u v c))"
  by (simp add: same_codes_def storeEntry_def Let_def keys_map_set split: jsdate.splits)

lemma same_codes_cleanup_loop:
  "same_codes st \<Longrightarrow> same_codes (cleanup_loop now es st)"
proof (induction es arbitrary: st)
  case Nil
  then show ?case by simp
next
  case (Cons p es)
  obtain k e where p: "p = (k, e)" by (cases p)
  show ?case
    using Cons.IH [OF Cons.prems] Cons.IH [OF same_codes_delete [OF Cons.prems, of k]]
    by (simp add: p)
qed

lemma create_cases:
  assumes "create P B rnd t1 t2 st body = Some p"
  shows "snd p = st \<or> (\<exists>u v c. p = storeEntry B t1 t2 st u v c)"
proof (cases "generateUnique rnd 0 (urlDatabase st)")
  case None
  with assms show ?thesis
    unfolding create_def
    by (simp split: option.splits if_splits validity_field.splits) auto
next
  case (Some c)
  with assms show ?thesis
    unfolding create_def
    by (simp split: option.splits if_splits validity_field.splits) auto
qed

text \<open>
  The generation loop ends as soon as a round draws a shortcode that is not in the URL
  map, and then \<open>create\<close> answers.
\<close>

lemma generateUnique_answers:
  assumes "\<not> map_has db (generateShortcode 6 rnd (k + 6 * n))"
  shows "\<exists>c. generateUnique rnd k db = Some c \<and> \<not> map_has db c"
  using assms
proof (induction n arbitrary: k)
  case 0
  then show ?case by (subst generateUnique.simps) simp
next
  case (Suc n)
  from Suc.prems have "\<not> map_has db (generateShortcode 6 rnd ((k + 6) + 6 * n))"
    by (simp add: add.assoc)
  from Suc.IH [OF this] show ?case
    by (subst generateUnique.simps) (simp add: Let_def)
qed

lemma create_answers:
  assumes "\<not> map_has (urlDatabase st) (generateShortcode 6 rnd (6 * n))"
  shows "\<exists>p. create P B rnd t1 t2 st body = Some p"
proof -
  from generateUnique_answers [of "urlDatabase st" rnd 0 n] assms
  obtain c where "generateUnique rnd 0 (urlDatabase st) = Some c" by auto
  then show ?thesis
    unfolding create_def
    by (simp split: option.splits validity_field.splits)
qed

lemma same_codes_create:
  assumes "same_codes st" and "create P B rnd t1 t2 st body = Some (r, st')"
  shows "same_codes st'"
proof -
  from create_cases [OF assms(2)]
  have "st' = st \<or> (\<exists>u v c. st' = snd (storeEntry B t1 t2 st u v c))"
    by (metis snd_conv)
  then show ?thesis
  proof
    assume "st' = st"
    with assms(1) show ?thesis by simp
  next
    assume "\<exists>u v c. st' = snd (storeEntry B t1 t2 st u v c)"
    then obtain u v c where "st' = snd (storeEntry B t1 t2 st u v c)" by blast
    with same_codes_storeEntry [OF assms(1)] show ?thesis by simp
  qed
qed

lemma same_codes_getStats: "same_codes st \<Longrightarrow> same_codes (snd (getStats now st code))"
  by (auto simp: getStats_def same_codes_delete split: option.splits)

lemma same_codes_resolve: "same_codes st \<Longrightarrow> same_codes (snd (resolve now st code))"
proof -
  assume a: "same_codes st"
  have k: "map_get (urlDatabase st) code = Some d \<Longrightarrow>
        fst ` set (map_set (urlDatabase st) code d') = fst ` set (urlDatabase st)" for d d'
    by (auto simp: keys_map_set map_get_def dest: map_of_SomeD intro: rev_image_eqI)
  show ?thesis using a
    by (auto simp: resolve_def same_codes_delete split: option.splits)
      (simp add: same_codes_def k)
qed

text \<open>
  \<^bold>\<open>C9.\<close> Every operation keeps the URL map and the expiry map on the same set of
  shortcodes: from a store where they agree, the store after \<open>create\<close> (whenever it
  answers), after \<open>getStats\<close>, after \<open>resolve\<close> and after \<open>cleanupExpiredUrls\<close> agrees
  again. An entry's URL record and expiry record are written together and deleted together.
\<close>

theorem same_codes_preserved:
  assumes "same_codes st"
  shows "(\<forall>r st'. create P B rnd t1 t2 st body = Some (r, st') \<longrightarrow> same_codes st')
       \<and> same_codes (snd (getStats now st code))
       \<and> same_codes (snd (resolve now st code))
       \<and> same_codes (snd (cleanupExpiredUrls now st))"
proof -
  have "\<forall>r st'. create P B rnd t1 t2 st body = Some (r, st') \<longrightarrow> same_codes st'"
    using same_codes_create [OF assms] by blast
  moreover have "same_codes (snd (cleanupExpiredUrls now st))"
    by (simp add: cleanupExpiredUrls_def same_codes_cleanup_loop [OF assms])
  ultimately show ?thesis
    using same_codes_getStats [OF assms] same_codes_resolve [OF assms] by simp
qed

theorem same_codes_preserved_witness:
  "same_codes emptyStore
   \<and> create schemeOf ''http://localhost:3000'' (\<lambda>k. 0) 0 0 emptyStore
         \<lparr>req_url = Some ''https://example.com/g'', req_validity = Absent,
          req_shortcode = None\<rparr>
       = Some (Created ''http://localhost:3000/AAAAAA'' 1800000,
           \<lparr>urlDatabase =
              [(''AAAAAA'',
                \<lparr>originalUrl = ''https://example.com/g'', createdAt = 0, accessCount = 0\<rparr>)],
            expiryDatabase = [(''AAAAAA'', Date 1800000)]\<rparr>)
   \<and> same_codes \<lparr>urlDatabase =
              [(''AAAAAA'',
                \<lparr>originalUrl = ''https://example.com/g'', createdAt = 0, accessCount = 0\<rparr>)],
            expiryDatabase = [(''AAAAAA'', Date 1800000)]\<rparr>
   \<and> same_codes store_abc
   \<and> same_codes (snd (getStats 120000 store_abc ''abc''))
   \<and> same_codes (snd (resolve 1000 store_abc ''abc''))
   \<and> same_codes (snd (cleanupExpiredUrls 120000 store_abc))"
proof -
  let ?body = "\<lparr>req_url = Some ''https://example.com/g'', req_validity = Absent,
          req_shortcode = None\<rparr>"
  let ?st = "\<lparr>urlDatabase =
              [(''AAAAAA'',
                \<lparr>originalUrl = ''https://example.com/g'', createdAt = 0, accessCount = 0\<rparr>)],
            expiryDatabase = [(''AAAAAA'', Date 1800000)]\<rparr>"
  have h0: "same_codes emptyStore" and h1: "same_codes store_abc"
    by (simp_all add: eval_defs)
  have g: "generateUnique (\<lambda>k. 0) 0 [] = Some ''AAAAAA''"
    by (subst generateUnique.simps)
      (simp add: generateShortcode_def eval_nat_numeral charAt_def chars_def map_has_def)
  have c: "create schemeOf ''http://localhost:3000'' (\<lambda>k. 0) 0 0 emptyStore ?body
       = Some (Created ''http://localhost:3000/AAAAAA'' 1800000, ?st)"
    using g by (simp add: eval_defs)
  from same_codes_preserved [OF h0, of schemeOf "''http://localhost:3000''" "\<lambda>k. 0" 0 0 ?body] c
  have a: "same_codes ?st" by blast
  from same_codes_preserved [OF h1, of _ _ _ _ _ _ 120000 "''abc''"]
  have b: "same_codes (snd (getStats 120000 store_abc ''abc''))"
    "same_codes (snd (cleanupExpiredUrls 120000 store_abc))"
    by blast+
  from same_codes_preserved [OF h1, of _ _ _ _ _ _ 1000 "''abc''"]
  have r: "same_codes (snd (resolve 1000 store_abc ''abc''))"
    by blast
  from h0 h1 c a b r show ?thesis by simp
qed

section \<open>Statistics do not count\<close>

lemma isExpired_urlDatabase_update [simp]:
  "isExpired t (st\<lparr>urlDatabase := db\<rparr>) code = isExpired t st code"
  by (simp add: isExpired_def)

lemma getStats_store:
  "snd (getStats now st code) = st
   \<or> (fst (getStats now st code) = Gone ''Short URL has expired''
      \<and> snd (getStats now st code) =
          st\<lparr>urlDatabase := map_delete (urlDatabase st) code,
             expiryDatabase := map_delete (expiryDatabase st) code\<rparr>)"
  by (simp add: getStats_def split: option.splits)

lemma getStats_entries:
  assumes "map_get (urlDatabase (snd (getStats now st code))) k = Some d'"
  shows "map_get (urlDatabase st) k = Some d'"
  using getStats_store [of now st code] assms
  by (auto simp: map_get_delete split: if_splits)

lemma getStats_fold_entries:
  assumes "map_get (urlDatabase (fold (\<lambda>(t, c) s. snd (getStats t s c)) calls st)) k = Some d'"
  shows "map_get (urlDatabase st) k = Some d'"
  using assms
proof (induction calls arbitrary: st)
  case Nil
  then show ?case by simp
next
  case (Cons a calls)
  obtain t c where a: "a = (t, c)" by (cases a)
  from Cons.prems have "map_get (urlDatabase (snd (getStats t st c))) k = Some d'"
    using Cons.IH [of "snd (getStats t st c)"] by (simp add: a)
  then show ?case by (rule getStats_entries)
qed

text \<open>
  \<^bold>\<open>C7.\<close> \<open>getStats\<close> never changes an access count. Every entry of the store after the
  call is an entry of the store before it, with the same \<open>accessCount\<close>; every entry of
  the store before the call is still there unchanged, unless it is the queried entry and
  the call answered that it has expired (then it is gone). The same holds after any
  sequence of \<open>getStats\<close> calls, at any times and for any shortcodes.
\<close>

theorem getStats_keeps_accessCount:
  "(\<forall>k d'. map_get (urlDatabase (snd (getStats now st code))) k = Some d' \<longrightarrow>
        (\<exists>d. map_get (urlDatabase st) k = Some d \<and> accessCount d = accessCount d'))
   \<and> (\<forall>k d. map_get (urlDatabase st) k = Some d \<longrightarrow>
        map_get (urlDatabase (snd (getStats now st code))) k = Some d
        \<or> (k = code \<and> fst (getStats now st code) = Gone ''Short URL has expired''
            \<and> map_get (urlDatabase (snd (getStats now st code))) k = None))
   \<and> (\<forall>k d'. map_get (urlDatabase (fold (\<lambda>(t, c) s. snd (getStats t s c)) calls st)) k = Some d'
        \<longrightarrow> (\<exists>d. map_get (urlDatabase st) k = Some d \<and> accessCount d = accessCount d'))"
proof -
  have a: "\<forall>k d'. map_get (urlDatabase (snd (getStats now st code))) k = Some d' \<longrightarrow>
        (\<exists>d. map_get (urlDatabase st) k = Some d \<and> accessCount d = accessCount d')"
    using getStats_entries by blast
  have b: "\<forall>k d. map_get (urlDatabase st) k = Some d \<longrightarrow>
        map_get (urlDatabase (snd (getStats now st code))) k = Some d
        \<or> (k = code \<and> fst (getStats now st code) = Gone ''Short URL has expired''
            \<and> map_get (urlDatabase (snd (getStats now st code))) k = None)"
    using getStats_store [of now st code] by (auto simp: map_get_delete split: if_splits)
  have c: "\<forall>k d'. map_get (urlDatabase (fold (\<lambda>(t, c) s. snd (getStats t s c)) calls st)) k = Some d'
        \<longrightarrow> (\<exists>d. map_get (urlDatabase st) k = Some d \<and> accessCount d = accessCount d')"
    using getStats_fold_entries by blast
  from a b c show ?thesis by blast
qed

theorem getStats_keeps_accessCount_witness:
  "map_get (urlDatabase (snd (getStats 1000 (snd (resolve 500 store_abc ''abc'')) ''abc''))) ''abc''
       = Some \<lparr>originalUrl = ''https://example.com/a'', createdAt = 0, accessCount = 1\<rparr>
   \<and> (\<exists>d. map_get (urlDatabase (snd (resolve 500 store_abc ''abc''))) ''abc'' = Some d
          \<and> accessCount d = 1)"
proof -
  let ?st = "snd (resolve 500 store_abc ''abc'')"
  let ?d = "\<lparr>originalUrl = ''https://example.com/a'', createdAt = 0, accessCount = 1\<rparr>"
  have e: "map_get (urlDatabase (snd (getStats 1000 ?st ''abc''))) ''abc'' = Some ?d"
    by (simp add: eval_defs)
  from getStats_keeps_accessCount [of 1000 ?st "''abc''" "[]"] e
  have "\<exists>d. map_get (urlDatabase ?st) ''abc'' = Some d \<and> accessCount d = accessCount ?d"
    by blast
  with e show ?thesis by simp
qed

section \<open>Redirects count\<close>

lemma resolve_live:
  assumes "code \<noteq> ''shorturls''" and "code \<noteq> ''health''"
    and "map_get (urlDatabase st) code = Some d"
    and "\<not> isExpired now st code"
  shows "resolve now st code =
           (Redirect (originalUrl d),
            st\<lparr>urlDatabase := map_set (urlDatabase st) code
                   (d\<lparr>accessCount := accessCount d + 1\<rparr>)\<rparr>)"
  using assms by (simp add: resolve_def map_has_get)

lemma resolve_fold_live:
  assumes "code \<noteq> ''shorturls''" and "code \<noteq> ''health''"
    and "map_get (urlDatabase st) code = Some d"
    and "\<forall>t\<in>set ts. \<not> isExpired t st code"
  shows "map_get (urlDatabase (fold (\<lambda>t s. snd (resolve t s code)) ts st)) code
           = Some (d\<lparr>accessCount := accessCount d + length ts\<rparr>)
       \<and> expiryDatabase (fold (\<lambda>t s. snd (resolve t s code)) ts st) = expiryDatabase st"
  using assms(3,4)
proof (induction ts arbitrary: st d)
  case Nil
  then show ?case by simp
next
  case (Cons t ts)
  let ?d = "d\<lparr>accessCount := accessCount d + 1\<rparr>"
  let ?st = "st\<lparr>urlDatabase := map_set (urlDatabase st) code ?d\<rparr>"
  from Cons.prems have live: "\<not> isExpired t st code" by simp
  have r: "snd (resolve t st code) = ?st"
    using resolve_live [OF assms(1,2) Cons.prems(1) live] by simp
  have g: "map_get (urlDatabase ?st) code = Some ?d"
    by (simp add: map_get_set)
  have l: "\<forall>t\<in>set ts. \<not> isExpired t ?st code"
    using Cons.prems(2) by simp
  from Cons.IH [OF g l] show ?case by (simp add: r)
qed

lemma getStats_live:
  assumes "map_get (urlDatabase st) code = Some d"
    and "map_get (expiryDatabase st) code = Some x"
    and "\<not> isExpired now st code"
  shows "getStats now st code =
           (Stats code (originalUrl d) (createdAt d) x (accessCount d), st)"
  using assms by (simp add: getStats_def map_has_get)

text \<open>
  \<^bold>\<open>C4.\<close> For a live entry (one that \<open>isExpired\<close> does not report, under a shortcode
  that is not a route name), \<open>resolve\<close> answers with a redirect to the stored
  \<open>originalUrl\<close>, unchanged, and adds exactly 1 to the entry's \<open>accessCount\<close>. After \<open>N\<close>
  such calls in a row, at times \<open>ts\<close> at which the entry is live, a following \<open>getStats\<close>
  reports the count the entry started with plus \<open>N\<close>: that is \<open>N\<close> for a fresh entry,
  whose count is 0.
\<close>

theorem resolve_counts:
  assumes "code \<noteq> ''shorturls''" and "code \<noteq> ''health''"
    and "map_get (urlDatabase st) code = Some d"
    and "map_get (expiryDatabase st) code = Some x"
    and "\<not> isExpired now st code"
    and "\<forall>t\<in>set ts. \<not> isExpired t st code"
    and "\<not> isExpired t' st code"
  shows "fst (resolve now st code) = Redirect (originalUrl d)
       \<and> map_get (urlDatabase (snd (resolve now st code))) code
           = Some (d\<lparr>accessCount := accessCount d + 1\<rparr>)
       \<and> fst (getStats t' (fold (\<lambda>t s. snd (resolve t s code)) ts st) code)
           = Stats code (originalUrl d) (createdAt d) x (accessCount d + length ts)
       \<and> (accessCount d = 0 \<longrightarrow>
            fst (getStats t' (fold (\<lambda>t s. snd (resolve t s code)) ts st) code)
              = Stats code (originalUrl d) (createdAt d) x (length ts))"
proof -
  let ?st = "fold (\<lambda>t s. snd (resolve t s code)) ts st"
  have one: "fst (resolve now st code) = Redirect (originalUrl d)
       \<and> map_get (urlDatabase (snd (resolve now st code))) code
           = Some (d\<lparr>accessCount := accessCount d + 1\<rparr>)"
    using resolve_live [OF assms(1,2,3,5)] by (simp add: map_get_set)
  from resolve_fold_live [OF assms(1,2,3,6)]
  have u: "map_get (urlDatabase ?st) code = Some (d\<lparr>accessCount := accessCount d + length ts\<rparr>)"
    and e: "expiryDatabase ?st = expiryDatabase st"
    by simp_all
  have x: "map_get (expiryDatabase ?st) code = Some x"
    using e assms(4) by simp
  have live: "\<not> isExpired t' ?st code"
    using assms(7) e by (simp add: isExpired_def)
  have many: "fst (getStats t' ?st code)
           = Stats code (originalUrl d) (createdAt d) x (accessCount d + length ts)"
    using getStats_live [OF u x live] by simp
  from one many show ?thesis by simp
qed

theorem resolve_counts_witness:
  "create schemeOf ''http://localhost:3000'' (\<lambda>k. 0) 0 0 emptyStore
         \<lparr>req_url = Some ''https://example.com/a'', req_validity = IntegerValue 1,
          req_shortcode = Some ''abc''\<rparr>
       = Some (Created ''http://localhost:3000/abc'' 60000, store_abc)
   \<and> fst (resolve 1000 store_abc ''abc'') = Redirect ''https://example.com/a''
   \<and> map_get (urlDatabase (snd (resolve 1000 store_abc ''abc''))) ''abc''
       = Some \<lparr>originalUrl = ''https://example.com/a'', createdAt = 0, accessCount = 1\<rparr>
   \<and> fst (getStats 4000
             (fold (\<lambda>t s. snd (resolve t s ''abc'')) [1000, 2000, 3000] store_abc) ''abc'')
       = Stats ''abc'' ''https://example.com/a'' 0 (Date 60000) 3"
proof -
  let ?d = "\<lparr>originalUrl = ''https://example.com/a'', createdAt = 0, accessCount = 0\<rparr>"
  have h: "''abc'' \<noteq> ''shorturls''" "''abc'' \<noteq> ''health''"
    "map_get (urlDatabase store_abc) ''abc'' = Some ?d"
    "map_get (expiryDatabase store_abc) ''abc'' = Some (Date 60000)"
    "\<not> isExpired 1000 store_abc ''abc''"
    "\<forall>t\<in>set [1000, 2000, 3000]. \<not> isExpired t store_abc ''abc''"
    "\<not> isExpired 4000 store_abc ''abc''"
    by (simp_all add: eval_defs)
  have c: "create schemeOf ''http://localhost:3000'' (\<lambda>k. 0) 0 0 emptyStore
         \<lparr>req_url = Some ''https://example.com/a'', req_validity = IntegerValue 1,
          req_shortcode = Some ''abc''\<rparr>
       = Some (Created ''http://localhost:3000/abc'' 60000, store_abc)"
    by (simp add: eval_defs)
  from resolve_counts [OF h] c show ?thesis by simp
qed

section \<open>Expired entries\<close>

lemma getStats_expired:
  assumes "map_has (urlDatabase st) code" and "isExpired now st code"
  shows "getStats now st code =
           (Gone ''Short URL has expired'',
            st\<lparr>urlDatabase := map_delete (urlDatabase st) code,
               expiryDatabase := map_delete (expiryDatabase st) code\<rparr>)"
  using assms by (simp add: getStats_def)

lemma resolve_expired:
  assumes "code \<noteq> ''shorturls''" and "code \<noteq> ''health''"
    and "map_has (urlDatabase st) code" and "isExpired now st code"
  shows "resolve now st code =
           (Gone ''Short URL has expired'',
            st\<lparr>urlDatabase := map_delete (urlDatabase st) code,
               expiryDatabase := map_delete (expiryDatabase st) code\<rparr>)"
  using assms by (simp add: resolve_def)

lemma getStats_missing:
  assumes "\<not> map_has (urlDatabase st) code"
  shows "getStats t st code = (NotFound ''Shortcode not found'', st)"
  using assms by (simp add: getStats_def)

lemma isExpired_Date:
  assumes "map_get (expiryDatabase st) code = Some (Date e)"
  shows "isExpired now st code \<longleftrightarrow> now > e"
  using assms by (simp add: isExpired_def)

text \<open>
  \<^bold>\<open>C3\<close> (as amended). For an entry that exists and is past its expiry, \<open>getStats\<close> fails
  with 410 (expired) and removes the entry from both maps, so that a following \<open>getStats\<close>
  fails with 404 (not found). \<open>resolve\<close> does the same for every shortcode other than the
  route names \<open>shorturls\<close> and \<open>health\<close>.
\<close>

theorem expired_entry_evicted:
  assumes "map_has (urlDatabase st) code"
    and "map_get (expiryDatabase st) code = Some (Date e)"
    and "e < now"
  shows "fst (getStats now st code) = Gone ''Short URL has expired''
       \<and> \<not> map_has (urlDatabase (snd (getStats now st code))) code
       \<and> \<not> map_has (expiryDatabase (snd (getStats now st code))) code
       \<and> fst (getStats t' (snd (getStats now st code)) code) = NotFound ''Shortcode not found''
       \<and> (code \<noteq> ''shorturls'' \<and> code \<noteq> ''health'' \<longrightarrow>
            fst (resolve now st code) = Gone ''Short URL has expired''
            \<and> \<not> map_has (urlDatabase (snd (resolve now st code))) code
            \<and> \<not> map_has (expiryDatabase (snd (resolve now st code))) code
            \<and> fst (getStats t' (snd (resolve now st code)) code)
                = NotFound ''Shortcode not found'')"
proof -
  let ?st = "st\<lparr>urlDatabase := map_delete (urlDatabase st) code,
               expiryDatabase := map_delete (expiryDatabase st) code\<rparr>"
  have x: "isExpired now st code"
    using isExpired_Date [OF assms(2)] assms(3) by simp
  have gone: "\<not> map_has (urlDatabase ?st) code" "\<not> map_has (expiryDatabase ?st) code"
    by (simp_all add: map_has_delete)
  have nf: "fst (getStats t' ?st code) = NotFound ''Shortcode not found''"
    using getStats_missing [OF gone(1)] by simp
  have g: "getStats now st code = (Gone ''Short URL has expired'', ?st)"
    by (rule getStats_expired [OF assms(1) x])
  have r: "resolve now st code = (Gone ''Short URL has expired'', ?st)"
    if "code \<noteq> ''shorturls''" "code \<noteq> ''health''"
    using resolve_expired [OF that assms(1) x] .
  from g r gone nf show ?thesis by simp
qed

theorem expired_entry_evicted_witness:
  "fst (getStats 120000 store_abc ''abc'') = Gone ''Short URL has expired''
   \<and> snd (getStats 120000 store_abc ''abc'') = emptyStore
   \<and> fst (getStats 120001 (snd (getStats 120000 store_abc ''abc'')) ''abc'')
       = NotFound ''Shortcode not found''
   \<and> fst (resolve 120000 store_abc ''abc'') = Gone ''Short URL has expired''
   \<and> snd (resolve 120000 store_abc ''abc'') = emptyStore
   \<and> fst (getStats 120001 (snd (resolve 120000 store_abc ''abc'')) ''abc'')
       = NotFound ''Shortcode not found''"
proof -
  have h: "map_has (urlDatabase store_abc) ''abc''"
    "map_get (expiryDatabase store_abc) ''abc'' = Some (Date 60000)" "(60000::int) < 120000"
    by (simp_all add: eval_defs)
  have c: "''abc'' \<noteq> ''shorturls'' \<and> ''abc'' \<noteq> ''health''" by simp
  from expired_entry_evicted [OF h, of 120001] c
  have "fst (getStats 120000 store_abc ''abc'') = Gone ''Short URL has expired''
       \<and> fst (getStats 120001 (snd (getStats 120000 store_abc ''abc'')) ''abc'')
           = NotFound ''Shortcode not found''
       \<and> fst (resolve 120000 store_abc ''abc'') = Gone ''Short URL has expired''
       \<and> fst (getStats 120001 (snd (resolve 120000 store_abc ''abc'')) ''abc'')
           = NotFound ''Shortcode not found''"
    by blast
  moreover have "snd (getStats 120000 store_abc ''abc'') = emptyStore"
    "snd (resolve 120000 store_abc ''abc'') = emptyStore"
    by (simp_all add: eval_defs)
  ultimately show ?thesis by simp
qed

text \<open>
  As first stated, for every shortcode and for both handlers, the property fails:
  \<open>resolve\<close> turns the route names away before it looks at the store. With an expired
  entry under \<open>shorturls\<close> it answers 404 and not 410, the entry stays, and a following
  \<open>getStats\<close> does not answer that the shortcode is not found.
\<close>

theorem resolve_reserved_expired_not_evicted:
  "map_has (urlDatabase store_shorturls) ''shorturls''
   \<and> map_get (expiryDatabase store_shorturls) ''shorturls'' = Some (Date 60000)
   \<and> resolve 120000 store_shorturls ''shorturls''
       = (NotFound ''Route not found'', store_shorturls)
   \<and> fst (resolve 120000 store_shorturls ''shorturls'') \<noteq> Gone ''Short URL has expired''
   \<and> map_has (urlDatabase (snd (resolve 120000 store_shorturls ''shorturls''))) ''shorturls''
   \<and> fst (getStats 120000 (snd (resolve 120000 store_shorturls ''shorturls'')) ''shorturls'')
       \<noteq> NotFound ''Shortcode not found''"
  by (simp add: eval_defs)

text \<open>
  \<^bold>\<open>C6\<close> (as amended). An entry with expiry \<open>e\<close> is expired exactly when the current
  time is strictly greater than \<open>e\<close>. At any time \<open>now \<le> e\<close> it is live: the lookup
  \<open>getStats\<close> returns its fields, and \<open>resolve\<close> redirects to its URL unless the shortcode
  is one of the route names \<open>shorturls\<close> and \<open>health\<close>. At any time \<open>now > e\<close> neither
  handler returns it: \<open>getStats\<close> answers 410 and \<open>resolve\<close> answers 410 or, for a route
  name, 404.
\<close>

theorem expiry_classification:
  assumes "map_get (urlDatabase st) code = Some d"
    and "map_get (expiryDatabase st) code = Some (Date e)"
  shows "(isExpired now st code \<longleftrightarrow> now > e)
       \<and> (now \<le> e \<longrightarrow>
            getStats now st code =
              (Stats code (originalUrl d) (createdAt d) (Date e) (accessCount d), st)
            \<and> (code \<noteq> ''shorturls'' \<and> code \<noteq> ''health'' \<longrightarrow>
                 fst (resolve now st code) = Redirect (originalUrl d)))
       \<and> (now > e \<longrightarrow>
            fst (getStats now st code) = Gone ''Short URL has expired''
            \<and> (fst (resolve now st code) = Gone ''Short URL has expired''
                 \<or> fst (resolve now st code) = NotFound ''Route not found''))"
proof -
  have has: "map_has (urlDatabase st) code"
    using assms(1) by (simp add: map_has_get)
  have c: "isExpired now st code \<longleftrightarrow> now > e"
    by (rule isExpired_Date [OF assms(2)])
  have live: "getStats now st code =
              (Stats code (originalUrl d) (createdAt d) (Date e) (accessCount d), st)
            \<and> (code \<noteq> ''shorturls'' \<and> code \<noteq> ''health'' \<longrightarrow>
                 fst (resolve now st code) = Redirect (originalUrl d))" if "now \<le> e"
  proof -
    from that c have n: "\<not> isExpired now st code" by simp
    show ?thesis
      using getStats_live [OF assms n] resolve_live [OF _ _ assms(1) n] by simp
  qed
  have dead: "fst (getStats now st code) = Gone ''Short URL has expired''
            \<and> (fst (resolve now st code) = Gone ''Short URL has expired''
                 \<or> fst (resolve now st code) = NotFound ''Route not found'')" if "now > e"
  proof -
    from that c have x: "isExpired now st code" by simp
    show ?thesis
      using getStats_expired [OF has x] has x by (simp add: resolve_def)
  qed
  from c live dead show ?thesis by blast
qed

theorem expiry_classification_witness:
  "\<not> isExpired 60000 store_abc ''abc''
   \<and> getStats 60000 store_abc ''abc''
       = (Stats ''abc'' ''https://example.com/a'' 0 (Date 60000) 0, store_abc)
   \<and> fst (resolve 60000 store_abc ''abc'') = Redirect ''https://example.com/a''
   \<and> isExpired 60001 store_abc ''abc''
   \<and> fst (getStats 60001 store_abc ''abc'') = Gone ''Short URL has expired''
   \<and> fst (resolve 60001 store_abc ''abc'') = Gone ''Short URL has expired''"
proof -
  let ?d = "\<lparr>originalUrl = ''https://example.com/a'', createdAt = 0, accessCount = 0\<rparr>"
  have h: "map_get (urlDatabase store_abc) ''abc'' = Some ?d"
    "map_get (expiryDatabase store_abc) ''abc'' = Some (Date 60000)"
    by (simp_all add: eval_defs)
  have c: "''abc'' \<noteq> ''shorturls'' \<and> ''abc'' \<noteq> ''health''" by simp
  from expiry_classification [OF h, of 60000] c
  have a: "\<not> isExpired 60000 store_abc ''abc''
     \<and> getStats 60000 store_abc ''abc''
         = (Stats ''abc'' ''https://example.com/a'' 0 (Date 60000) 0, store_abc)
     \<and> fst (resolve 60000 store_abc ''abc'') = Redirect ''https://example.com/a''"
    by simp
  from expiry_classification [OF h, of 60001]
  have b: "isExpired 60001 store_abc ''abc''
     \<and> fst (getStats 60001 store_abc ''abc'') = Gone ''Short URL has expired''"
    by simp
  have r: "fst (resolve 60001 store_abc ''abc'') = Gone ''Short URL has expired''"
    by (simp add: eval_defs)
  from a b r show ?thesis by simp
qed

text \<open>
  As first stated, every live entry is returned by lookup and by resolution alike. The
  entry under \<open>shorturls\<close> is live at 30000 and \<open>getStats\<close> returns it, but \<open>resolve\<close>
  answers 404 and no redirect.
\<close>

theorem live_route_name_not_resolved:
  "map_get (expiryDatabase store_shorturls) ''shorturls'' = Some (Date 60000)
   \<and> \<not> isExpired 30000 store_shorturls ''shorturls''
   \<and> fst (getStats 30000 store_shorturls ''shorturls'')
       = Stats ''shorturls'' ''https://example.com/s'' 0 (Date 60000) 0
   \<and> resolve 30000 store_shorturls ''shorturls''
       = (NotFound ''Route not found'', store_shorturls)
   \<and> fst (resolve 30000 store_shorturls ''shorturls'') \<noteq> Redirect ''https://example.com/s''"
  by (simp add: eval_defs)

section \<open>Route names as shortcodes\<close>

lemma storeEntry_entry:
  "map_get (urlDatabase (snd (storeEntry B t1 t2 st u v c))) c
     = Some \<lparr>originalUrl = u, createdAt = t2, accessCount = 0\<rparr>
   \<and> map_get (expiryDatabase (snd (storeEntry B t1 t2 st u v c))) c
     = Some (newDate (t1 + v * 60 * 1000))"
  by (simp add: storeEntry_def Let_def map_get_set split: jsdate.splits)

lemma storeEntry_response:
  "fst (storeEntry B t1 t2 st u v c) =
     (if \<bar>t1 + v * 60 * 1000\<bar> \<le> 8640000000000000
      then Created (B @ ''/'' @ c) (t1 + v * 60 * 1000)
      else InternalServerError ''An error occurred while creating the short URL'')"
  by (simp add: storeEntry_def Let_def newDate_def)

lemma create_requested:
  assumes "u \<noteq> []" and "isValidUrl P u" and "0 < v" and "isValidShortcode c"
  shows "create P B rnd t1 t2 st
           \<lparr>req_url = Some u, req_validity = IntegerValue v, req_shortcode = Some c\<rparr>
         = (if map_has (urlDatabase st) c
            then Some (Conflict ''Shortcode already exists'', st)
            else Some (storeEntry B t1 t2 st u v c))"
proof -
  from assms(4) have "c \<noteq> []" by (auto simp: isValidShortcode_def)
  with assms show ?thesis by (simp add: create_def)
qed

lemma resolve_reserved:
  assumes "c = ''shorturls'' \<or> c = ''health''"
  shows "resolve now st c = (NotFound ''Route not found'', st)"
  using assms by (auto simp: resolve_def)

lemma resolve_fold_reserved:
  assumes "c = ''shorturls'' \<or> c = ''health''"
  shows "fold (\<lambda>t s. snd (resolve t s c)) ts st = st"
  by (induction ts) (simp_all add: resolve_reserved [OF assms])

lemma isValidShortcode_reserved:
  "isValidShortcode ''shorturls'' \<and> isValidShortcode ''health''"
  by (simp add: isValidShortcode_def isAlnum_def)

text \<open>
  \<^bold>\<open>C10.\<close> The shortcodes \<open>shorturls\<close> and \<open>health\<close> pass \<open>isValidShortcode\<close>, and
  \<open>create\<close> stores an entry under either of them when it is free (for a valid URL and
  a positive validity with an expiry in the range of dates), live until that expiry. Yet \<open>resolve\<close> answers
  404 \<open>Route not found\<close> for them in every store and leaves the store as it is: no sequence
  of \<open>resolve\<close> calls redirects to such an entry or changes its \<open>accessCount\<close>.
\<close>

theorem reserved_route_names:
  assumes "c = ''shorturls'' \<or> c = ''health''"
    and "u \<noteq> []" and "isValidUrl P u" and "0 < v"
    and "\<bar>t1 + v * 60 * 1000\<bar> \<le> 8640000000000000"
    and "\<not> map_has (urlDatabase st) c"
  shows "isValidShortcode c
       \<and> (\<exists>st'. create P B rnd t1 t2 st
              \<lparr>req_url = Some u, req_validity = IntegerValue v, req_shortcode = Some c\<rparr>
              = Some (Created (B @ ''/'' @ c) (t1 + v * 60 * 1000), st')
            \<and> map_get (urlDatabase st') c
                = Some \<lparr>originalUrl = u, createdAt = t2, accessCount = 0\<rparr>
            \<and> (\<forall>n. n \<le> t1 + v * 60 * 1000 \<longrightarrow> \<not> isExpired n st' c)
            \<and> resolve now st' c = (NotFound ''Route not found'', st')
            \<and> fold (\<lambda>t s. snd (resolve t s c)) ts st' = st')
       \<and> (\<forall>n s. resolve n s c = (NotFound ''Route not found'', s))"
proof -
  let ?body = "\<lparr>req_url = Some u, req_validity = IntegerValue v, req_shortcode = Some c\<rparr>"
  let ?p = "storeEntry B t1 t2 st u v c"
  have valid: "isValidShortcode c"
    using assms(1) isValidShortcode_reserved by blast
  have "create P B rnd t1 t2 st ?body
         = (if map_has (urlDatabase st) c
            then Some (Conflict ''Shortcode already exists'', st)
            else Some ?p)"
    using assms(2,3,4) valid by (rule create_requested)
  with assms(6) have cr: "create P B rnd t1 t2 st ?body = Some (fst ?p, snd ?p)"
    by simp
  have resp: "fst ?p = Created (B @ ''/'' @ c) (t1 + v * 60 * 1000)"
    using assms(5) by (simp add: storeEntry_response)
  have ent: "map_get (urlDatabase (snd ?p)) c
               = Some \<lparr>originalUrl = u, createdAt = t2, accessCount = 0\<rparr>"
    and ex: "map_get (expiryDatabase (snd ?p)) c = Some (newDate (t1 + v * 60 * 1000))"
    using storeEntry_entry [of B t1 t2 st u v c] by simp_all
  have live: "\<forall>n. n \<le> t1 + v * 60 * 1000 \<longrightarrow> \<not> isExpired n (snd ?p) c"
    using ex assms(5) by (simp add: isExpired_def newDate_def)
  have r: "resolve n s c = (NotFound ''Route not found'', s)" for n s
    by (rule resolve_reserved [OF assms(1)])
  have "create P B rnd t1 t2 st ?body
           = Some (Created (B @ ''/'' @ c) (t1 + v * 60 * 1000), snd ?p)
        \<and> map_get (urlDatabase (snd ?p)) c
                = Some \<lparr>originalUrl = u, createdAt = t2, accessCount = 0\<rparr>
        \<and> (\<forall>n. n \<le> t1 + v * 60 * 1000 \<longrightarrow> \<not> isExpired n (snd ?p) c)
        \<and> resolve now (snd ?p) c = (NotFound ''Route not found'', snd ?p)
        \<and> fold (\<lambda>t s. snd (resolve t s c)) ts (snd ?p) = snd ?p"
    using cr resp ent live r resolve_fold_reserved [OF assms(1)] by simp
  then have "\<exists>st'. create P B rnd t1 t2 st ?body
              = Some (Created (B @ ''/'' @ c) (t1 + v * 60 * 1000), st')
            \<and> map_get (urlDatabase st') c
                = Some \<lparr>originalUrl = u, createdAt = t2, accessCount = 0\<rparr>
            \<and> (\<forall>n. n \<le> t1 + v * 60 * 1000 \<longrightarrow> \<not> isExpired n st' c)
            \<and> resolve now st' c = (NotFound ''Route not found'', st')
            \<and> fold (\<lambda>t s. snd (resolve t s c)) ts st' = st'"
    by (rule exI)
  with valid r show ?thesis by blast
qed

theorem reserved_route_names_witness:
  "isValidShortcode ''shorturls''
   \<and> create schemeOf ''http://localhost:3000'' (\<lambda>k. 0) 0 0 emptyStore
         \<lparr>req_url = Some ''https://example.com/s'', req_validity = IntegerValue 1,
          req_shortcode = Some ''shorturls''\<rparr>
       = Some (Created ''http://localhost:3000/shorturls'' 60000, store_shorturls)
   \<and> \<not> isExpired 0 store_shorturls ''shorturls''
   \<and> resolve 1000 store_shorturls ''shorturls'' = (NotFound ''Route not found'', store_shorturls)"
proof -
  have h: "''shorturls'' = ''shorturls'' \<or> ''shorturls'' = ''health''"
    "''https://example.com/s'' \<noteq> []" "isValidUrl schemeOf ''https://example.com/s''" "(0::int) < 1"
    "\<bar>0 + 1 * 60 * 1000\<bar> \<le> (8640000000000000::int)"
    "\<not> map_has (urlDatabase emptyStore) ''shorturls''"
    by (simp_all add: eval_defs)
  have c: "create schemeOf ''http://localhost:3000'' (\<lambda>k. 0) 0 0 emptyStore
         \<lparr>req_url = Some ''https://example.com/s'', req_validity = IntegerValue 1,
          req_shortcode = Some ''shorturls''\<rparr>
       = Some (Created ''http://localhost:3000/shorturls'' 60000, store_shorturls)"
    by (simp add: eval_defs)
  from reserved_route_names [of "''shorturls''" "''https://example.com/s''" schemeOf 1 0
      emptyStore "''http://localhost:3000''" "\<lambda>k. 0" 0 1000 "[]", OF h] c
  show ?thesis by auto
qed

section \<open>Requested shortcodes\<close>

lemma create_conflict_only:
  assumes "create P B rnd t1 t2 st body = Some (Conflict m, s)"
  shows "s = st \<and> (\<exists>c. req_shortcode body = Some c \<and> map_has (urlDatabase st) c)"
proof -
  have ne: "fst (storeEntry B t1 t2 st u v c) \<noteq> Conflict m" for u v c
    by (simp add: storeEntry_response)
  have ne': "storeEntry B t1 t2 st u v c \<noteq> (Conflict m, s)" for u v c
    using ne [of u v c] by (metis fst_conv)
  show ?thesis
  proof (cases "generateUnique rnd 0 (urlDatabase st)")
    case None
    with assms ne' show ?thesis
      unfolding create_def
      by (simp split: option.splits if_splits validity_field.splits; auto)
  next
    case (Some c)
    with assms ne' show ?thesis
      unfolding create_def
      by (simp split: option.splits if_splits validity_field.splits; auto)
  qed
qed

text \<open>
  \<^bold>\<open>C1\<close> (as amended). For a valid URL, a positive validity and a well-formed requested
  shortcode, \<open>create\<close> answers 409 (conflict) whenever an entry, expired or not, is stored
  under the shortcode, and leaves the store unchanged. When no entry is stored under it,
  \<open>create\<close> does not answer 409 and inserts a new entry with access count 0 under the
  shortcode; it answers 201 when the expiry is in the range of dates. For any request,
  409 is answered only when an entry is stored under the requested shortcode.
\<close>

theorem create_requested_code:
  assumes "u \<noteq> []" and "isValidUrl P u" and "0 < v" and "isValidShortcode c"
  shows "(map_has (urlDatabase st) c \<longrightarrow>
            create P B rnd t1 t2 st
              \<lparr>req_url = Some u, req_validity = IntegerValue v, req_shortcode = Some c\<rparr>
            = Some (Conflict ''Shortcode already exists'', st))
       \<and> (\<not> map_has (urlDatabase st) c \<longrightarrow>
            (\<exists>r st'. create P B rnd t1 t2 st
                \<lparr>req_url = Some u, req_validity = IntegerValue v, req_shortcode = Some c\<rparr>
                = Some (r, st')
              \<and> r \<noteq> Conflict ''Shortcode already exists''
              \<and> (\<bar>t1 + v * 60 * 1000\<bar> \<le> 8640000000000000 \<longrightarrow>
                   r = Created (B @ ''/'' @ c) (t1 + v * 60 * 1000))
              \<and> map_get (urlDatabase st') c
                   = Some \<lparr>originalUrl = u, createdAt = t2, accessCount = 0\<rparr>
              \<and> map_get (expiryDatabase st') c = Some (newDate (t1 + v * 60 * 1000))))
       \<and> (\<forall>body m s. create P B rnd t1 t2 st body = Some (Conflict m, s) \<longrightarrow>
            s = st \<and> (\<exists>c'. req_shortcode body = Some c' \<and> map_has (urlDatabase st) c'))"
proof -
  let ?body = "\<lparr>req_url = Some u, req_validity = IntegerValue v, req_shortcode = Some c\<rparr>"
  have cr: "create P B rnd t1 t2 st ?body
         = (if map_has (urlDatabase st) c
            then Some (Conflict ''Shortcode already exists'', st)
            else Some (storeEntry B t1 t2 st u v c))"
    using assms by (rule create_requested)
  have a: "map_has (urlDatabase st) c \<longrightarrow>
            create P B rnd t1 t2 st ?body = Some (Conflict ''Shortcode already exists'', st)"
    using cr by simp
  have b: "\<exists>r st'. create P B rnd t1 t2 st ?body = Some (r, st')
              \<and> r \<noteq> Conflict ''Shortcode already exists''
              \<and> (\<bar>t1 + v * 60 * 1000\<bar> \<le> 8640000000000000 \<longrightarrow>
                   r = Created (B @ ''/'' @ c) (t1 + v * 60 * 1000))
              \<and> map_get (urlDatabase st') c
                   = Some \<lparr>originalUrl = u, createdAt = t2, accessCount = 0\<rparr>
              \<and> map_get (expiryDatabase st') c = Some (newDate (t1 + v * 60 * 1000))"
    if n: "\<not> map_has (urlDatabase st) c"
  proof (intro exI conjI)
    show "create P B rnd t1 t2 st ?body
            = Some (fst (storeEntry B t1 t2 st u v c), snd (storeEntry B t1 t2 st u v c))"
      using cr n by simp
    show "fst (storeEntry B t1 t2 st u v c) \<noteq> Conflict ''Shortcode already exists''"
      by (simp add: storeEntry_response)
    show "\<bar>t1 + v * 60 * 1000\<bar> \<le> 8640000000000000 \<longrightarrow>
            fst (storeEntry B t1 t2 st u v c) = Created (B @ ''/'' @ c) (t1 + v * 60 * 1000)"
      by (simp add: storeEntry_response)
    show "map_get (urlDatabase (snd (storeEntry B t1 t2 st u v c))) c
            = Some \<lparr>originalUrl = u, createdAt = t2, accessCount = 0\<rparr>"
      using storeEntry_entry by blast
    show "map_get (expiryDatabase (snd (storeEntry B t1 t2 st u v c))) c
            = Some (newDate (t1 + v * 60 * 1000))"
      using storeEntry_entry by blast
  qed
  have c: "\<forall>body m s. create P B rnd t1 t2 st body = Some (Conflict m, s) \<longrightarrow>
            s = st \<and> (\<exists>c'. req_shortcode body = Some c' \<and> map_has (urlDatabase st) c')"
    using create_conflict_only by blast
  from a b c show ?thesis by blast
qed

theorem create_requested_code_witness:
  "create schemeOf ''http://localhost:3000'' (\<lambda>k. 0) 0 0 emptyStore
         \<lparr>req_url = Some ''https://example.com/a'', req_validity = IntegerValue 1,
          req_shortcode = Some ''abc''\<rparr>
       = Some (Created ''http://localhost:3000/abc'' 60000, store_abc)
   \<and> create schemeOf ''http://localhost:3000'' (\<lambda>k. 0) 30000 30000 store_abc
         \<lparr>req_url = Some ''https://example.com/a'', req_validity = IntegerValue 1,
          req_shortcode = Some ''abc''\<rparr>
       = Some (Conflict ''Shortcode already exists'', store_abc)"
proof -
  have h: "''https://example.com/a'' \<noteq> []" "isValidUrl schemeOf ''https://example.com/a''"
    "(0::int) < 1" "isValidShortcode ''abc''"
    by (simp_all add: isValidUrl_def schemeOf_def isValidShortcode_def isAlnum_def)
  have free: "\<not> map_has (urlDatabase emptyStore) ''abc''"
    and taken: "map_has (urlDatabase store_abc) ''abc''"
    by (simp_all add: eval_defs)
  from create_requested_code [of "''https://example.com/a''" schemeOf 1 "''abc''" emptyStore
      "''http://localhost:3000''" "\<lambda>k. 0" 0 0, OF h] free
  have a: "\<exists>r st'. create schemeOf ''http://localhost:3000'' (\<lambda>k. 0) 0 0 emptyStore
         \<lparr>req_url = Some ''https://example.com/a'', req_validity = IntegerValue 1,
          req_shortcode = Some ''abc''\<rparr> = Some (r, st')"
    by blast
  from create_requested_code [of "''https://example.com/a''" schemeOf 1 "''abc''" store_abc
      "''http://localhost:3000''" "\<lambda>k. 0" 30000 30000, OF h] taken
  have b: "create schemeOf ''http://localhost:3000'' (\<lambda>k. 0) 30000 30000 store_abc
         \<lparr>req_url = Some ''https://example.com/a'', req_validity = IntegerValue 1,
          req_shortcode = Some ''abc''\<rparr>
       = Some (Conflict ''Shortcode already exists'', store_abc)"
    by blast
  from a b show ?thesis by (simp add: eval_defs)
qed

text \<open>
  As first stated, a shortcode held only by an expired entry is free. The handler tests
  \<open>urlDatabase.has(shortcode)\<close> and never the expiry: with the entry under \<open>abc\<close> expired
  at 60000, a request for \<open>abc\<close> at 120000 is answered 409 and stores nothing.
\<close>

theorem create_blocked_by_expired_entry:
  "map_get (expiryDatabase store_abc) ''abc'' = Some (Date 60000)
   \<and> isExpired 120000 store_abc ''abc''
   \<and> create schemeOf ''http://localhost:3000'' (\<lambda>k. 0) 120000 120000 store_abc
         \<lparr>req_url = Some ''https://example.com/b'', req_validity = IntegerValue 5,
          req_shortcode = Some ''abc''\<rparr>
       = Some (Conflict ''Shortcode already exists'', store_abc)"
  by (simp add: eval_defs)

section \<open>The periodic cleanup\<close>

lemma expiredCodes_Nil [simp]: "expiredCodes now [] = []"
  by (simp add: expiredCodes_def)

lemma expiredCodes_Cons [simp]:
  "expiredCodes now ((k, e) # es) =
     (if now_gt now e then k # expiredCodes now es else expiredCodes now es)"
  by (simp add: expiredCodes_def)

lemma cleanup_loop_none:
  "expiredCodes now es = [] \<Longrightarrow> cleanup_loop now es st = st"
  by (induction es) (auto split: if_splits)

lemma cleanup_loop_filter:
  "urlDatabase (cleanup_loop now es st)
     = filter (\<lambda>p. fst p \<notin> set (expiredCodes now es)) (urlDatabase st)
   \<and> expiryDatabase (cleanup_loop now es st)
     = filter (\<lambda>p. fst p \<notin> set (expiredCodes now es)) (expiryDatabase st)"
proof (induction es arbitrary: st)
  case Nil
  then show ?case by simp
next
  case (Cons a es)
  obtain k e where a: "a = (k, e)" by (cases a)
  show ?case
  proof (cases "now_gt now e")
    case True
    let ?st = "st\<lparr>urlDatabase := map_delete (urlDatabase st) k,
                  expiryDatabase := map_delete (expiryDatabase st) k\<rparr>"
    from Cons.IH [of ?st] True show ?thesis
      by (simp add: a filter_map_delete)
  next
    case False
    with Cons.IH [of st] show ?thesis by (simp add: a)
  qed
qed

lemma expiredCodes_filter:
  "expiredCodes now (filter (\<lambda>p. fst p \<notin> set (expiredCodes now es)) es) = []"
proof -
  have "expiredCodes now (filter (\<lambda>p. fst p \<notin> X) es) = []"
    if "set (expiredCodes now es) \<subseteq> X" for X
    using that by (induction es) (auto split: if_splits)
  then show ?thesis by blast
qed

text \<open>
  \<^bold>\<open>C2\<close> (as amended). \<open>cleanupExpiredUrls\<close> returns no value. It removes from both
  maps exactly the shortcodes whose expiry entry is past at \<open>now\<close>; on a store with no
  such entry (an empty or fully live one) it changes nothing; after it no entry is past its
  expiry at \<open>now\<close>, and a second call at the same time changes nothing.
\<close>

theorem cleanup_evicts_expired:
  "fst (cleanupExpiredUrls now st) = None
   \<and> urlDatabase (snd (cleanupExpiredUrls now st))
       = filter (\<lambda>p. fst p \<notin> set (expiredCodes now (expiryDatabase st))) (urlDatabase st)
   \<and> expiryDatabase (snd (cleanupExpiredUrls now st))
       = filter (\<lambda>p. fst p \<notin> set (expiredCodes now (expiryDatabase st))) (expiryDatabase st)
   \<and> (expiredCodes now (expiryDatabase st) = [] \<longrightarrow> snd (cleanupExpiredUrls now st) = st)
   \<and> expiredCodes now (expiryDatabase (snd (cleanupExpiredUrls now st))) = []
   \<and> snd (cleanupExpiredUrls now (snd (cleanupExpiredUrls now st)))
       = snd (cleanupExpiredUrls now st)"
proof -
  let ?st = "cleanup_loop now (expiryDatabase st) st"
  note f = cleanup_loop_filter [of now "expiryDatabase st" st]
  have n: "expiredCodes now (expiryDatabase ?st) = []"
    using f expiredCodes_filter [of now "expiryDatabase st"] by simp
  have i: "cleanup_loop now (expiryDatabase ?st) ?st = ?st"
    by (rule cleanup_loop_none [OF n])
  have u: "expiredCodes now (expiryDatabase st) = [] \<longrightarrow> ?st = st"
    using cleanup_loop_none by blast
  from f n i u show ?thesis by (simp add: cleanupExpiredUrls_def)
qed

theorem cleanup_evicts_expired_witness:
  "expiredCodes 30000 (expiryDatabase store_abc) = []
   \<and> snd (cleanupExpiredUrls 30000 store_abc) = store_abc
   \<and> snd (cleanupExpiredUrls 120000 store_abc) = emptyStore
   \<and> snd (cleanupExpiredUrls 120000 (snd (cleanupExpiredUrls 120000 store_abc))) = emptyStore"
proof -
  have n: "expiredCodes 30000 (expiryDatabase store_abc) = []"
    by (simp add: eval_defs)
  have e: "snd (cleanupExpiredUrls 120000 store_abc) = emptyStore"
    by (simp add: eval_defs)
  from cleanup_evicts_expired [of 30000 store_abc] n
  have a: "snd (cleanupExpiredUrls 30000 store_abc) = store_abc" by blast
  from cleanup_evicts_expired [of 120000 store_abc] e
  have b: "snd (cleanupExpiredUrls 120000 (snd (cleanupExpiredUrls 120000 store_abc))) = emptyStore"
    by simp
  from n e a b show ?thesis by simp
qed

text \<open>
  As first stated, the cleanup returns the number of entries it evicted. It has no
  \<open>return\<close> statement: with one expired entry it evicts that entry and its value is
  \<open>undefined\<close>, not 1, and on the empty store its value is not 0.
\<close>

theorem cleanup_returns_no_count:
  "expiredCodes 120000 (expiryDatabase store_abc) = [''abc'']
   \<and> snd (cleanupExpiredUrls 120000 store_abc) = emptyStore
   \<and> fst (cleanupExpiredUrls 120000 store_abc) = None
   \<and> fst (cleanupExpiredUrls 120000 store_abc)
       \<noteq> Some (length (expiredCodes 120000 (expiryDatabase store_abc)))
   \<and> fst (cleanupExpiredUrls 120000 emptyStore) \<noteq> Some 0"
  by (simp add: eval_defs)

end
